theory Spec2Isabelle
  imports Complex_Main "HOL-Library.Char_ord" "HOL-Library.List_Lexorder"
begin

section \<open>The local route optimizer of the grocery front-end\<close>

text \<open>
  The development embeds \<^verbatim>\<open>optimizeRoute\<close> of the component with the sample store
  data (\<^verbatim>\<open>src/src/services/api.ts\<close>, lines 494 to 579) and the mock fallback of
  \<^verbatim>\<open>optimizeShoppingRoute\<close> (lines 103 to 137 of the same file).

  JavaScript numbers that are finite are modelled as exact rationals: the rounding of
  IEEE doubles is not modelled. The values \<^verbatim>\<open>Infinity\<close>, \<^verbatim>\<open>-Infinity\<close> and \<^verbatim>\<open>NaN\<close> are
  modelled where the code can produce them (\<^verbatim>\<open>Math.max()\<close> of no arguments). Quantities
  and the store limit come from \<^verbatim>\<open>parseInt\<close> and are integers.
\<close>

subsection \<open>Numbers\<close>

datatype number = Fin rat | PosInf | NegInf | NaN

fun num_neg :: "number \<Rightarrow> number" where
  "num_neg (Fin a) = Fin (- a)"
| "num_neg PosInf = NegInf"
| "num_neg NegInf = PosInf"
| "num_neg NaN = NaN"

fun num_add :: "number \<Rightarrow> number \<Rightarrow> number" where
  "num_add (Fin a) (Fin b) = Fin (a + b)"
| "num_add (Fin a) PosInf = PosInf"
| "num_add (Fin a) NegInf = NegInf"
| "num_add PosInf (Fin b) = PosInf"
| "num_add NegInf (Fin b) = NegInf"
| "num_add PosInf PosInf = PosInf"
| "num_add NegInf NegInf = NegInf"
| "num_add PosInf NegInf = NaN"
| "num_add NegInf PosInf = NaN"
| "num_add NaN y = NaN"
| "num_add x NaN = NaN"

definition num_sub :: "number \<Rightarrow> number \<Rightarrow> number" where
  "num_sub x y = num_add x (num_neg y)"

definition inf_times :: "number \<Rightarrow> rat \<Rightarrow> number" where
  \<comment> \<open>an infinity times a finite number: the sign rule, and \<^verbatim>\<open>Infinity * 0\<close> is \<^verbatim>\<open>NaN\<close>\<close>
  "inf_times i a = (if a = 0 then NaN else if 0 < a then i else num_neg i)"

fun num_mul :: "number \<Rightarrow> number \<Rightarrow> number" where
  "num_mul (Fin a) (Fin b) = Fin (a * b)"
| "num_mul (Fin a) PosInf = inf_times PosInf a"
| "num_mul (Fin a) NegInf = inf_times NegInf a"
| "num_mul PosInf (Fin b) = inf_times PosInf b"
| "num_mul NegInf (Fin b) = inf_times NegInf b"
| "num_mul PosInf PosInf = PosInf"
| "num_mul NegInf NegInf = PosInf"
| "num_mul PosInf NegInf = NegInf"
| "num_mul NegInf PosInf = NegInf"
| "num_mul NaN y = NaN"
| "num_mul x NaN = NaN"

definition Math_max :: "rat list \<Rightarrow> number" where
  \<comment> \<open>\<^verbatim>\<open>Math.max(...xs)\<close> on finite numbers; with no argument it is \<^verbatim>\<open>-Infinity\<close>\<close>
  "Math_max xs = (case xs of [] \<Rightarrow> NegInf | x # ys \<Rightarrow> Fin (fold max ys x))"

subsection \<open>Data\<close>

record catalog_entry =
  price :: rat
  available :: bool

record Store =
  store_id :: string
  store_name :: string
  address :: string
  distance :: rat
  items :: "string \<rightharpoonup> catalog_entry"

record GroceryItem =
  item_id :: string
  item_name :: string
  quantity :: int
  item_unit :: string

record ShoppingRoute =
  stores :: "Store list"
  totalCost :: rat
  totalDistance :: rat
  savings :: number

text \<open>An entry of \<^verbatim>\<open>itemStoreMaps[name]\<close>: a store and the line cost there.\<close>

record store_option =
  opt_store :: Store
  opt_price :: rat

text \<open>A value of \<^verbatim>\<open>storeItemMap\<close>: the store, the labels of its items, their cost.\<close>

record bucket =
  bucket_store :: Store
  bucket_items :: "string list"
  cost :: rat

text \<open>The two destructive toasts after which \<^verbatim>\<open>optimizeRoute\<close> returns without a route.\<close>

datatype toast_error = EmptyGroceryList | NoStoresFound

definition superMart :: Store where
  "superMart =
    \<lparr>store_id = ''1'', store_name = ''SuperMart'', address = ''123 Main St'',
     distance = 2.1,
     items = map_of
       [(''milk'', \<lparr>price = 3.99, available = True\<rparr>),
        (''bread'', \<lparr>price = 2.49, available = True\<rparr>),
        (''eggs'', \<lparr>price = 4.29, available = True\<rparr>),
        (''apples'', \<lparr>price = 1.99, available = True\<rparr>)]\<rparr>"

definition freshFoods :: Store where
  "freshFoods =
    \<lparr>store_id = ''2'', store_name = ''Fresh Foods'', address = ''456 Oak Ave'',
     distance = 3.2,
     items = map_of
       [(''milk'', \<lparr>price = 4.19, available = True\<rparr>),
        (''bread'', \<lparr>price = 2.99, available = True\<rparr>),
        (''eggs'', \<lparr>price = 3.89, available = True\<rparr>),
        (''apples'', \<lparr>price = 1.79, available = True\<rparr>)]\<rparr>"

definition budgetGrocers :: Store where
  "budgetGrocers =
    \<lparr>store_id = ''3'', store_name = ''Budget Grocers'', address = ''789 Pine Rd'',
     distance = 4.8,
     items = map_of
       [(''milk'', \<lparr>price = 3.49, available = True\<rparr>),
        (''bread'', \<lparr>price = 1.99, available = True\<rparr>),
        (''eggs'', \<lparr>price = 3.99, available = True\<rparr>),
        (''apples'', \<lparr>price = 2.19, available = True\<rparr>)]\<rparr>"

definition sampleStores :: "Store list" where
  "sampleStores = [superMart, freshFoods, budgetGrocers]"

subsection \<open>Objects used as dictionaries\<close>

text \<open>
  \<^verbatim>\<open>storeItemMap\<close> is an object keyed by store id. It is modelled as an association
  list with distinct keys in insertion order. \<^verbatim>\<open>Object.values\<close> lists the values of the
  keys that are array indices (canonical decimal strings below \<open>2\<^sup>3\<^sup>2 - 1\<close>) first, in
  ascending numeric order, and then the values of the other keys in insertion order.
  Store ids are taken not to be names of properties of \<^verbatim>\<open>Object.prototype\<close>.
\<close>

definition is_digit :: "char \<Rightarrow> bool" where
  "is_digit c = (48 \<le> (of_char c :: int) \<and> (of_char c :: int) \<le> 57)"

definition array_index :: "string \<Rightarrow> int option" where
  "array_index k =
    (if k = [] \<or> \<not> list_all is_digit k \<or> (hd k = CHR ''0'' \<and> 1 < length k) then None
     else let n = foldl (\<lambda>a c. 10 * a + (of_char c - 48)) 0 k
          in if n < 4294967295 then Some n else None)"

fun obj_put :: "string \<Rightarrow> 'v \<Rightarrow> (string \<times> 'v) list \<Rightarrow> (string \<times> 'v) list" where
  "obj_put k v [] = [(k, v)]"
| "obj_put k v ((k', v') # kvs) =
     (if k' = k then (k, v) # kvs else (k', v') # obj_put k v kvs)"

definition Object_values :: "(string \<times> 'v) list \<Rightarrow> 'v list" where
  "Object_values obj =
     map snd (sort_key (\<lambda>kv. the (array_index (fst kv)))
                (filter (\<lambda>kv. array_index (fst kv) \<noteq> None) obj))
     @ map snd (filter (\<lambda>kv. array_index (fst kv) = None) obj)"

definition slice0 :: "'a list \<Rightarrow> int \<Rightarrow> 'a list" where
  \<comment> \<open>\<^verbatim>\<open>xs.slice(0, e)\<close> for an integer \<open>e\<close>: a negative end counts from the end of the list\<close>
  "slice0 xs e = (if e < 0 then take (nat (int (length xs) + e)) xs else take (nat e) xs)"

subsection \<open>Rendering of an item\<close>

function show_nat :: "nat \<Rightarrow> string" where
  "show_nat n =
     (if n < 10 then [char_of (48 + n)]
      else show_nat (n div 10) @ [char_of (48 + n mod 10)])"
  by pat_completeness auto
termination
  by (relation "measure id") auto

definition show_int :: "int \<Rightarrow> string" where
  \<comment> \<open>the decimal rendering of an integer (below \<open>10\<^sup>2\<^sup>1\<close> in absolute value)\<close>
  "show_int q = (if q < 0 then CHR ''-'' # show_nat (nat (- q)) else show_nat (nat q))"

definition item_label :: "GroceryItem \<Rightarrow> string" where
  \<comment> \<open>the template \<^verbatim>\<open>`${item.quantity} ${item.unit} ${item.name}`\<close>\<close>
  "item_label item = show_int (quantity item) @ '' '' @ item_unit item @ '' '' @ item_name item"

subsection \<open>The phases of optimizeRoute\<close>

text \<open>
  \<^verbatim>\<open>optimizeRoute\<close> reads the component's state (\<^verbatim>\<open>groceryList\<close>, \<^verbatim>\<open>radius\<close>, \<^verbatim>\<open>maxStores\<close>)
  and the store list; they are the arguments of the model. The component passes the
  constant \<^verbatim>\<open>sampleStores\<close> as the store list. The function either shows a destructive
  toast and returns, which is the left injection of the model, or stores a route with
  \<^verbatim>\<open>setRoute\<close>, which is the right injection; the toast that reports success is not
  modelled. Each phase of the function body is a definition of its own, under the name
  of the local variable it computes. \<^verbatim>\<open>Array.prototype.sort\<close> is stable, and both
  comparators subtract one finite key, so each sort is \<^const>\<open>sort_key\<close> on that key.
\<close>

definition availableStores :: "Store list \<Rightarrow> rat \<Rightarrow> Store list" where
  "availableStores storeList radius = filter (\<lambda>store. distance store \<le> radius) storeList"

definition pushed_options :: "Store list \<Rightarrow> GroceryItem \<Rightarrow> store_option list" where
  \<comment> \<open>the inner \<^verbatim>\<open>forEach\<close>: one option per available store that has the item available\<close>
  "pushed_options avail item =
     List.map_filter
       (\<lambda>store. case items store (item_name item) of
                   None \<Rightarrow> None
                 | Some e \<Rightarrow>
                     if available e
                     then Some \<lparr>opt_store = store, opt_price = price e * of_int (quantity item)\<rparr>
                     else None)
       avail"

definition item_options :: "Store list \<Rightarrow> GroceryItem \<Rightarrow> store_option list" where
  \<comment> \<open>the pushed options after \<^verbatim>\<open>.sort((a, b) => a.price - b.price)\<close>, a stable sort\<close>
  "item_options avail item = sort_key opt_price (pushed_options avail item)"

definition itemStoreMaps :: "GroceryItem list \<Rightarrow> Store list \<Rightarrow> (string \<rightharpoonup> store_option list)" where
  "itemStoreMaps groceryList avail =
     fold (\<lambda>item m. m(item_name item \<mapsto> item_options avail item)) groceryList Map.empty"

definition cheapest_of :: "(string \<rightharpoonup> store_option list) \<Rightarrow> GroceryItem \<Rightarrow> store_option option" where
  \<comment> \<open>\<^verbatim>\<open>cheapestOptions[0]\<close> under the guard \<^verbatim>\<open>cheapestOptions.length > 0\<close>. Every name of the
      list is a key of the maps built from it (lemma \<open>itemStoreMaps_defined\<close>), so the
      lookup of the second loop is never \<^verbatim>\<open>undefined\<close> and the first case does not arise.\<close>
  "cheapest_of maps item =
     (case maps (item_name item) of
        None \<Rightarrow> None
      | Some [] \<Rightarrow> None
      | Some (cheapest # rest) \<Rightarrow> Some cheapest)"

definition assign :: "(string \<rightharpoonup> store_option list) \<Rightarrow> GroceryItem \<Rightarrow>
    (string \<times> bucket) list \<times> rat \<Rightarrow> (string \<times> bucket) list \<times> rat" where
  \<comment> \<open>one round of the second \<^verbatim>\<open>forEach\<close>, on the pair of \<^verbatim>\<open>storeItemMap\<close> and \<^verbatim>\<open>totalCost\<close>\<close>
  "assign maps item acc =
     (case cheapest_of maps item of
        None \<Rightarrow> acc
      | Some cheapest \<Rightarrow>
          let key = store_id (opt_store cheapest);
              b = (case map_of (fst acc) key of
                     None \<Rightarrow> \<lparr>bucket_store = opt_store cheapest, bucket_items = [], cost = 0\<rparr>
                   | Some b0 \<Rightarrow> b0)
          in (obj_put key
                (b\<lparr>bucket_items := bucket_items b @ [item_label item],
                   cost := cost b + opt_price cheapest\<rparr>)
                (fst acc),
              snd acc + opt_price cheapest))"

definition greedy :: "GroceryItem list \<Rightarrow> Store list \<Rightarrow> (string \<times> bucket) list \<times> rat" where
  "greedy groceryList avail =
     fold (assign (itemStoreMaps groceryList avail)) groceryList ([], 0)"

definition sortedBuckets :: "(string \<times> bucket) list \<Rightarrow> bucket list" where
  \<comment> \<open>\<^verbatim>\<open>Object.values(storeItemMap).sort((a, b) => a.store.distance - b.store.distance)\<close>\<close>
  "sortedBuckets storeItemMap =
     sort_key (\<lambda>s. distance (bucket_store s)) (Object_values storeItemMap)"

definition routeStores :: "(string \<times> bucket) list \<Rightarrow> int \<Rightarrow> bucket list" where
  "routeStores storeItemMap maxStores = slice0 (sortedBuckets storeItemMap) maxStores"

definition available_prices :: "Store list \<Rightarrow> string \<Rightarrow> rat list" where
  \<comment> \<open>\<^verbatim>\<open>availableStores.filter(s => s.items[n]?.available).map(s => s.items[n].price)\<close>\<close>
  "available_prices avail n =
     List.map_filter
       (\<lambda>s. case items s n of
               None \<Rightarrow> None
             | Some e \<Rightarrow> if available e then Some (price e) else None)
       avail"

definition expensiveStoreCost :: "GroceryItem list \<Rightarrow> Store list \<Rightarrow> number" where
  "expensiveStoreCost groceryList avail =
     fold (\<lambda>item sum.
             num_add sum
               (num_mul (Math_max (available_prices avail (item_name item)))
                        (Fin (of_int (quantity item)))))
          groceryList (Fin 0)"

definition optimizeRoute ::
    "GroceryItem list \<Rightarrow> Store list \<Rightarrow> rat \<Rightarrow> int \<Rightarrow> toast_error + ShoppingRoute" where
  "optimizeRoute groceryList storeList radius maxStores =
     (if groceryList = [] then Inl EmptyGroceryList
      else
        let avail = availableStores storeList radius in
        if avail = [] then Inl NoStoresFound
        else
          let g = greedy groceryList avail;
              rs = routeStores (fst g) maxStores
          in Inr \<lparr>stores = map bucket_store rs,
                  totalCost = snd g,
                  totalDistance = fold (\<lambda>s sum. sum + distance (bucket_store s)) rs 0,
                  savings = num_sub (expensiveStoreCost groceryList avail) (Fin (snd g))\<rparr>)"

subsection \<open>The mock fallback of optimizeShoppingRoute\<close>

record OptimizedRoute =
  Plan :: "string \<rightharpoonup> string list"
  Cost :: rat

definition key_or :: "string list \<Rightarrow> nat \<Rightarrow> string \<Rightarrow> string" where
  \<comment> \<open>\<^verbatim>\<open>stores[i] || dflt\<close>: a missing or empty name gives the default\<close>
  "key_or xs i dflt = (if i < length xs \<and> xs ! i \<noteq> [] then xs ! i else dflt)"

definition optimizeShoppingRoute ::
    "string list \<Rightarrow> string list \<Rightarrow> OptimizedRoute option \<Rightarrow> rat \<Rightarrow> OptimizedRoute" where
  \<comment> \<open>\<open>response\<close> is the backend's answer (\<open>None\<close>: the request failed in any way);
      \<open>random\<close> is the value \<^verbatim>\<open>Math.random()\<close> returns, a number from 0 up to but not including 1.
      The cost is the exact value of \<^verbatim>\<open>random * 50 + 25\<close>; the code's double is its rounding,
      which can be the same for two different draws, so nothing is concluded from two
      costs being equal or from the exact value of a cost that double arithmetic rounds.\<close>
  "optimizeShoppingRoute itemNames storeNames response random =
     (case response of
        Some route \<Rightarrow> route
      | None \<Rightarrow>
          let half = (length itemNames + 1) div 2 in
          \<lparr>Plan = (Map.empty(key_or storeNames 0 ''Walmart'' \<mapsto> take half itemNames))
                    (key_or storeNames 1 ''Target'' \<mapsto> drop half itemNames),
           Cost = random * 50 + 25\<rparr>)"

subsection \<open>Grocery lists used as examples\<close>

definition entry :: "string \<Rightarrow> int \<Rightarrow> GroceryItem" where
  \<comment> \<open>an item as \<^verbatim>\<open>addItem\<close> builds it; the form offers no unit but the default \<^verbatim>\<open>pcs\<close>\<close>
  "entry n q = \<lparr>item_id = ''0'', item_name = n, quantity = q, item_unit = ''pcs''\<rparr>"

subsection \<open>The orders the specification asks for\<close>



subsection \<open>Items that no store in range stocks\<close>

text \<open>
  The specification's unfulfillable item: no store of the list has the item's name in its
  catalogue with the availability flag set.
\<close>

definition unfulfillable :: "Store list \<Rightarrow> GroceryItem \<Rightarrow> bool" where
  "unfulfillable avail item =
     (\<not> list_ex (\<lambda>s. case items s (item_name item) of None \<Rightarrow> False | Some e \<Rightarrow> available e) avail)"

subsection \<open>What of a bucket reaches the route\<close>

text \<open>
  The route is built from the buckets' keys and stores only; the item labels and the
  per-store cost of a bucket are never read.
\<close>

definition key_and_store :: "string \<times> bucket \<Rightarrow> string \<times> Store" where
  "key_and_store kb = (fst kb, bucket_store (snd kb))"

section \<open>Properties\<close>

subsection \<open>The per-item option lists\<close>

lemma itemStoreMaps_snoc:
  "itemStoreMaps (xs @ [x]) avail = (itemStoreMaps xs avail)(item_name x \<mapsto> item_options avail x)"
  by (simp add: itemStoreMaps_def)

lemma itemStoreMaps_lookup:
  "itemStoreMaps gl avail n =
     (if filter (\<lambda>i. item_name i = n) gl = [] then None
      else Some (item_options avail (last (filter (\<lambda>i. item_name i = n) gl))))"
proof (induction gl rule: rev_induct)
  case Nil
  show ?case by (simp add: itemStoreMaps_def)
next
  case (snoc x xs)
  show ?case
  proof (cases "item_name x = n")
    case True
    then show ?thesis
      by (simp add: itemStoreMaps_snoc)
  next
    case False
    then show ?thesis
      using snoc.IH by (simp add: itemStoreMaps_snoc)
  qed
qed

lemma itemStoreMaps_defined:
  "item \<in> set gl \<Longrightarrow> itemStoreMaps gl avail (item_name item) \<noteq> None"
  by (auto simp: itemStoreMaps_lookup filter_empty_conv)

lemma set_pushed_options:
  "c \<in> set (pushed_options avail item) \<Longrightarrow> opt_store c \<in> set avail"
  by (auto simp: pushed_options_def List.map_filter_def split: option.splits if_splits)

lemma set_item_options:
  "c \<in> set (item_options avail item) \<Longrightarrow> opt_store c \<in> set avail"
  by (simp add: item_options_def set_pushed_options)

lemma itemStoreMaps_range:
  "itemStoreMaps gl avail n = Some opts \<Longrightarrow> c \<in> set opts \<Longrightarrow> opt_store c \<in> set avail"
  by (auto simp: itemStoreMaps_lookup split: if_splits dest: set_item_options)

lemma cheapest_of_in:
  "cheapest_of (itemStoreMaps gl avail) item = Some c \<Longrightarrow> opt_store c \<in> set avail"
  unfolding cheapest_of_def
  by (auto split: option.splits list.splits dest: itemStoreMaps_range)

lemma map_opt_store_pushed_options:
  "map opt_store (pushed_options avail item) =
     filter (\<lambda>s. case items s (item_name item) of None \<Rightarrow> False | Some e \<Rightarrow> available e) avail"
  by (induction avail)
     (auto simp: pushed_options_def List.map_filter_def split: option.splits)

lemma pushed_options_price:
  "c \<in> set (pushed_options avail item) \<Longrightarrow>
     \<exists>e. items (opt_store c) (item_name item) = Some e \<and> available e \<and>
         opt_price c = price e * of_int (quantity item)"
  by (auto simp: pushed_options_def List.map_filter_def split: option.splits if_splits)

lemma last_same_name:
  assumes "item \<in> set gl"
  shows "filter (\<lambda>i. item_name i = item_name item) gl \<noteq> []"
    and "item_name (last (filter (\<lambda>i. item_name i = item_name item) gl)) = item_name item"
    and "last (filter (\<lambda>i. item_name i = item_name item) gl) \<in> set gl"
proof -
  let ?f = "filter (\<lambda>i. item_name i = item_name item) gl"
  show ne: "?f \<noteq> []" using assms by (auto simp: filter_empty_conv)
  from ne have "last ?f \<in> set ?f" by (rule last_in_set)
  then show "item_name (last ?f) = item_name item" and "last ?f \<in> set gl" by auto
qed

lemma cheapest_of_name:
  "item_name i = item_name j \<Longrightarrow> cheapest_of maps i = cheapest_of maps j"
  by (simp add: cheapest_of_def)

lemma item_options_empty: "item_options avail item = [] \<longleftrightarrow> unfulfillable avail item"
proof -
  have "item_options avail item = [] \<longleftrightarrow> pushed_options avail item = []"
    by (metis item_options_def length_0_conv length_sort)
  then have "item_options avail item = [] \<longleftrightarrow> map opt_store (pushed_options avail item) = []"
    by simp
  also have "\<dots> \<longleftrightarrow> unfulfillable avail item"
    unfolding map_opt_store_pushed_options
    by (simp add: unfulfillable_def filter_empty_conv list_ex_iff)
  finally show ?thesis .
qed

lemma unfulfillable_name:
  "item_name i = item_name j \<Longrightarrow> unfulfillable avail i = unfulfillable avail j"
  by (simp add: unfulfillable_def)

lemma cheapest_of_unfulfillable:
  assumes "item \<in> set gl"
  shows "cheapest_of (itemStoreMaps gl avail) item = None \<longleftrightarrow> unfulfillable avail item"
proof -
  let ?lst = "last (filter (\<lambda>i. item_name i = item_name item) gl)"
  have m: "itemStoreMaps gl avail (item_name item) = Some (item_options avail ?lst)"
    using last_same_name(1)[OF assms] by (simp add: itemStoreMaps_lookup)
  have "cheapest_of (itemStoreMaps gl avail) item = None \<longleftrightarrow> item_options avail ?lst = []"
    by (simp add: cheapest_of_def m split: list.splits)
  also have "\<dots> \<longleftrightarrow> unfulfillable avail ?lst"
    by (rule item_options_empty)
  also have "\<dots> \<longleftrightarrow> unfulfillable avail item"
    using last_same_name(2)[OF assms] by (rule unfulfillable_name)
  finally show ?thesis .
qed

lemma itemStoreMaps_filter:
  assumes "\<And>i. item_name i = n \<Longrightarrow> Q i"
  shows "itemStoreMaps (filter Q gl) avail n = itemStoreMaps gl avail n"
proof -
  have "filter (\<lambda>i. item_name i = n) (filter Q gl) = filter (\<lambda>i. item_name i = n) gl"
    using assms by (auto simp: filter_filter intro: filter_cong)
  then show ?thesis by (simp add: itemStoreMaps_lookup)
qed

subsection \<open>The buckets of the greedy pass\<close>

lemma set_obj_put: "set (obj_put k v kvs) \<subseteq> insert (k, v) (set kvs)"
  by (induction kvs) (auto split: if_splits)

lemma assign_stores:
  assumes c: "\<And>c. cheapest_of maps item = Some c \<Longrightarrow> opt_store c \<in> S"
    and inv: "\<forall>kb\<in>set (fst acc). bucket_store (snd kb) \<in> S"
  shows "\<forall>kb\<in>set (fst (assign maps item acc)). bucket_store (snd kb) \<in> S"
proof (cases "cheapest_of maps item")
  case None
  then show ?thesis using inv by (simp add: assign_def)
next
  case (Some ch)
  have "opt_store ch \<in> S" using c Some by simp
  then show ?thesis
    using inv Some set_obj_put
    by (fastforce simp: assign_def Let_def split: option.splits dest: map_of_SomeD)
qed

lemma fold_assign_stores:
  assumes c: "\<And>item c. cheapest_of maps item = Some c \<Longrightarrow> opt_store c \<in> S"
  shows "\<forall>kb\<in>set (fst acc). bucket_store (snd kb) \<in> S \<Longrightarrow>
         \<forall>kb\<in>set (fst (fold (assign maps) gl acc)). bucket_store (snd kb) \<in> S"
proof (induction gl arbitrary: acc)
  case Nil
  then show ?case by simp
next
  case (Cons i gl)
  have "\<forall>kb\<in>set (fst (assign maps i acc)). bucket_store (snd kb) \<in> S"
    using assign_stores[of maps i S acc] c Cons.prems by blast
  then show ?case using Cons.IH by simp
qed

lemma greedy_stores:
  "kb \<in> set (fst (greedy gl avail)) \<Longrightarrow> bucket_store (snd kb) \<in> set avail"
  using fold_assign_stores[of "itemStoreMaps gl avail" "set avail" "([], 0)" gl] cheapest_of_in
  unfolding greedy_def by fastforce

lemma map_of_obj_put: "map_of (obj_put k v kvs) k = Some v"
  by (induction kvs) auto

lemma assign_skip: "cheapest_of maps item = None \<Longrightarrow> assign maps item acc = acc"
  by (simp add: assign_def)

lemma assign_cong:
  "cheapest_of m1 item = cheapest_of m2 item \<Longrightarrow> assign m1 item acc = assign m2 item acc"
  by (simp add: assign_def)

lemma fold_assign_cong:
  "(\<And>i. i \<in> set gl \<Longrightarrow> cheapest_of m1 i = cheapest_of m2 i) \<Longrightarrow>
     fold (assign m1) gl acc = fold (assign m2) gl acc"
proof (induction gl arbitrary: acc)
  case Nil
  show ?case by simp
next
  case (Cons i gl)
  have "cheapest_of m1 i = cheapest_of m2 i"
    using Cons.prems by simp
  then have "assign m1 i acc = assign m2 i acc"
    by (rule assign_cong)
  moreover have "fold (assign m1) gl acc' = fold (assign m2) gl acc'" for acc'
    using Cons.IH Cons.prems by simp
  ultimately show ?case by simp
qed

lemma fold_assign_filter:
  "(\<And>i. i \<in> set gl \<Longrightarrow> \<not> Q i \<Longrightarrow> cheapest_of maps i = None) \<Longrightarrow>
     fold (assign maps) (filter Q gl) acc = fold (assign maps) gl acc"
  by (induction gl arbitrary: acc) (simp_all add: assign_skip)

lemma greedy_without_unfulfillable:
  "greedy (filter (\<lambda>i. \<not> unfulfillable avail i) gl) avail = greedy gl avail"
proof -
  let ?Q = "\<lambda>i. \<not> unfulfillable avail i"
  have same: "cheapest_of (itemStoreMaps (filter ?Q gl) avail) i =
      cheapest_of (itemStoreMaps gl avail) i"
    if i: "i \<in> set (filter ?Q gl)" for i
  proof -
    from i have qi: "\<not> unfulfillable avail i" by simp
    have "\<not> unfulfillable avail j" if "item_name j = item_name i" for j
      using unfulfillable_name[OF that, of avail] qi by simp
    then have "itemStoreMaps (filter ?Q gl) avail (item_name i) =
        itemStoreMaps gl avail (item_name i)"
      by (rule itemStoreMaps_filter)
    then show ?thesis by (simp add: cheapest_of_def)
  qed
  have skipped: "cheapest_of (itemStoreMaps gl avail) i = None"
    if "i \<in> set gl" and "\<not> ?Q i" for i
    using that by (simp add: cheapest_of_unfulfillable)
  have "greedy (filter ?Q gl) avail =
      fold (assign (itemStoreMaps gl avail)) (filter ?Q gl) ([], 0)"
    unfolding greedy_def
    using same by (rule fold_assign_cong)
  also have "\<dots> = fold (assign (itemStoreMaps gl avail)) gl ([], 0)"
    using skipped by (rule fold_assign_filter[where Q = ?Q])
  finally show ?thesis by (simp add: greedy_def)
qed

subsection \<open>Object values, sorting and slicing\<close>

lemma set_Object_values: "set (Object_values obj) = snd ` set obj"
proof -
  have "set (Object_values obj) =
      snd ` {x \<in> set obj. array_index (fst x) \<noteq> None} \<union>
      snd ` {x \<in> set obj. array_index (fst x) = None}"
    by (simp add: Object_values_def del: not_None_eq)
  also have "\<dots> = snd ` set obj"
    by blast
  finally show ?thesis .
qed

lemma length_filter_None_split:
  "length (filter (\<lambda>kv. f kv \<noteq> None) xs) + length (filter (\<lambda>kv. f kv = None) xs) = length xs"
  by (induction xs) auto

lemma length_Object_values: "length (Object_values obj) = length obj"
  using length_filter_None_split[of "\<lambda>kv. array_index (fst kv)" obj]
  by (simp add: Object_values_def del: not_None_eq)

lemma set_sortedBuckets: "set (sortedBuckets sm) = snd ` set sm"
  by (simp add: sortedBuckets_def set_Object_values)

lemma length_sortedBuckets: "length (sortedBuckets sm) = length sm"
  by (simp add: sortedBuckets_def length_Object_values)

lemma set_slice0: "set (slice0 xs e) \<subseteq> set xs"
  by (auto simp: slice0_def dest: in_set_takeD)

lemma length_slice0: "0 \<le> e \<Longrightarrow> int (length (slice0 xs e)) \<le> e"
  by (simp add: slice0_def)

lemma set_routeStores: "b \<in> set (routeStores sm e) \<Longrightarrow> b \<in> snd ` set sm"
  using set_slice0 set_sortedBuckets unfolding routeStores_def by fastforce

subsection \<open>Outcomes\<close>

lemma optimizeRoute_Inr:
  assumes "groceryList \<noteq> []" and "availableStores storeList radius \<noteq> []"
  shows "optimizeRoute groceryList storeList radius maxStores =
    Inr \<lparr>stores = map bucket_store
             (routeStores (fst (greedy groceryList (availableStores storeList radius))) maxStores),
          totalCost = snd (greedy groceryList (availableStores storeList radius)),
          totalDistance = fold (\<lambda>s sum. sum + distance (bucket_store s))
             (routeStores (fst (greedy groceryList (availableStores storeList radius))) maxStores) 0,
          savings = num_sub
             (expensiveStoreCost groceryList (availableStores storeList radius))
             (Fin (snd (greedy groceryList (availableStores storeList radius))))\<rparr>"
  using assms by (simp add: optimizeRoute_def Let_def)

lemma sampleStores_in_range_4:
  "availableStores sampleStores 4 = [superMart, freshFoods]"
  by (simp add: availableStores_def sampleStores_def superMart_def freshFoods_def
      budgetGrocers_def)

lemma sampleStores_in_range_5:
  "availableStores sampleStores 5 = sampleStores"
  by (simp add: availableStores_def sampleStores_def superMart_def freshFoods_def
      budgetGrocers_def)

lemma in_range_5_nonempty: "availableStores sampleStores 5 \<noteq> []"
  unfolding sampleStores_in_range_5 by (simp add: sampleStores_def)

subsection \<open>The selected stores\<close>

text \<open>
  Claim C5. With a positive \<^verbatim>\<open>maxStores\<close>, a route that \<^verbatim>\<open>optimizeRoute\<close> returns lists at
  most \<^verbatim>\<open>maxStores\<close> stores, and every listed store is one of the candidate stores and lies
  within the radius, whatever stores beyond the radius the candidate list holds.
\<close>

theorem selected_stores_bounded:
  assumes "0 < maxStores" and "optimizeRoute gl sl radius maxStores = Inr r"
  shows "int (length (stores r)) \<le> maxStores \<and>
         (\<forall>s\<in>set (stores r). s \<in> set sl \<and> distance s \<le> radius)"
proof -
  let ?avail = "availableStores sl radius"
  let ?g = "greedy gl ?avail"
  from assms(2) have r: "stores r = map bucket_store (routeStores (fst ?g) maxStores)"
    by (auto simp: optimizeRoute_def Let_def split: if_splits)
  have "int (length (stores r)) \<le> maxStores"
    using assms(1) length_slice0[of maxStores] by (simp add: r routeStores_def)
  moreover have "s \<in> set sl \<and> distance s \<le> radius" if "s \<in> set (stores r)" for s
  proof -
    from that obtain b where "b \<in> set (routeStores (fst ?g) maxStores)" "s = bucket_store b"
      by (auto simp: r)
    then obtain kb where "kb \<in> set (fst ?g)" "s = bucket_store (snd kb)"
      using set_routeStores by fastforce
    then have "s \<in> set ?avail" using greedy_stores by blast
    then show ?thesis by (simp add: availableStores_def)
  qed
  ultimately show ?thesis by blast
qed

text \<open>
  An instance: milk and eggs from the sample stores with radius 4 and one store allowed.
  Budget Grocers, at 4.8 miles, is a candidate beyond the radius.
\<close>

theorem selected_stores_bounded_witness:
  "(0::int) < 1 \<and> 4 < distance budgetGrocers \<and> budgetGrocers \<in> set sampleStores \<and>
   (\<exists>r. optimizeRoute [entry ''milk'' 1, entry ''eggs'' 1] sampleStores 4 1 = Inr r \<and>
        int (length (stores r)) \<le> 1 \<and>
        (\<forall>s\<in>set (stores r). s \<in> set sampleStores \<and> distance s \<le> 4))"
proof -
  obtain r where r: "optimizeRoute [entry ''milk'' 1, entry ''eggs'' 1] sampleStores 4 1 = Inr r"
    using optimizeRoute_Inr[of "[entry ''milk'' 1, entry ''eggs'' 1]" sampleStores 4 1]
    by (simp add: sampleStores_in_range_4)
  have pos: "(0::int) < 1" by simp
  have far: "4 < distance budgetGrocers \<and> budgetGrocers \<in> set sampleStores"
    by (simp add: budgetGrocers_def sampleStores_def)
  from selected_stores_bounded[OF pos r] r pos far show ?thesis by blast
qed

subsection \<open>Failures\<close>

text \<open>
  Claim C3, as amended. \<^verbatim>\<open>optimizeRoute\<close> reports that no store was found exactly when the
  grocery list is not empty and no candidate store lies within the radius. It has one
  other failure: it reports an empty grocery list exactly when the list is empty. In
  every other case it returns a route; an item that no store stocks is no failure.
\<close>

theorem optimizeRoute_failures:
  "(optimizeRoute gl sl radius maxStores = Inl NoStoresFound \<longleftrightarrow>
      gl \<noteq> [] \<and> (\<forall>s\<in>set sl. \<not> distance s \<le> radius)) \<and>
   (optimizeRoute gl sl radius maxStores = Inl EmptyGroceryList \<longleftrightarrow> gl = []) \<and>
   ((\<exists>r. optimizeRoute gl sl radius maxStores = Inr r) \<longleftrightarrow>
      gl \<noteq> [] \<and> (\<exists>s\<in>set sl. distance s \<le> radius))"
proof -
  have a: "availableStores sl radius = [] \<longleftrightarrow> (\<forall>s\<in>set sl. \<not> distance s \<le> radius)"
    by (simp add: availableStores_def filter_empty_conv)
  show ?thesis
    using a by (auto simp: optimizeRoute_def Let_def)
qed

theorem optimizeRoute_failures_witness:
  "[entry ''milk'' 1] \<noteq> [] \<and> set sampleStores = {superMart, freshFoods, budgetGrocers} \<and>
   \<not> distance superMart \<le> 1 \<and> \<not> distance freshFoods \<le> 1 \<and> \<not> distance budgetGrocers \<le> 1 \<and>
   optimizeRoute [entry ''milk'' 1] sampleStores 1 3 = Inl NoStoresFound"
proof -
  have d: "\<not> distance superMart \<le> 1 \<and> \<not> distance freshFoods \<le> 1 \<and> \<not> distance budgetGrocers \<le> 1"
    by (simp add: superMart_def freshFoods_def budgetGrocers_def)
  have s: "set sampleStores = {superMart, freshFoods, budgetGrocers}"
    by (simp add: sampleStores_def)
  have h: "[entry ''milk'' 1] \<noteq> [] \<and> (\<forall>s\<in>set sampleStores. \<not> distance s \<le> 1)"
    using d s by simp
  from optimizeRoute_failures[of "[entry ''milk'' 1]" sampleStores 1 3] h
  have "optimizeRoute [entry ''milk'' 1] sampleStores 1 3 = Inl NoStoresFound"
    by blast
  then show ?thesis using d s by simp
qed

text \<open>
  The claim as stated, that a missing store in range is the only failure, fails on the
  empty list with the sample stores in range.
\<close>

theorem other_failure_counterexample:
  "distance superMart \<le> 5 \<and> superMart \<in> set sampleStores \<and>
   optimizeRoute [] sampleStores 5 3 = Inl EmptyGroceryList \<and>
   optimizeRoute [] sampleStores 5 3 \<noteq> Inl NoStoresFound"
  by (simp add: optimizeRoute_def superMart_def sampleStores_def)

text \<open>
  Claim C7, as amended. For an empty grocery list \<^verbatim>\<open>optimizeRoute\<close> returns no route,
  whatever the stores, the radius and the store limit: it reports the empty list.
\<close>

theorem empty_list_is_refused:
  "optimizeRoute [] sl radius maxStores = Inl EmptyGroceryList \<and>
   (\<forall>r. optimizeRoute [] sl radius maxStores \<noteq> Inr r)"
  by (simp add: optimizeRoute_def)

text \<open>
  The claim as stated, a route with no store and zero cost, distance and savings, fails
  for the empty list and no candidate store.
\<close>

theorem empty_list_no_result_counterexample:
  "optimizeRoute [] [] 5 3 = Inl EmptyGroceryList \<and>
   optimizeRoute [] [] 5 3 \<noteq>
     Inr \<lparr>stores = [], totalCost = 0, totalDistance = 0, savings = Fin 0\<rparr>"
  by (simp add: optimizeRoute_def)

subsection \<open>The total cost and the savings\<close>

text \<open>
  Claim C1, evaluated where it fails. Milk and eggs from the sample stores with one store
  allowed: milk goes to Budget Grocers (3.49), eggs to Fresh Foods (3.89). Only Fresh
  Foods is kept, with the eggs as its one line item of cost 3.89, and the route's
  \<^verbatim>\<open>totalCost\<close> is still 7.38: the total of before the truncation.
\<close>

theorem stale_total_after_truncation:
  "(case optimizeRoute [entry ''milk'' 1, entry ''eggs'' 1] sampleStores 5 1 of
      Inl e \<Rightarrow> False
    | Inr r \<Rightarrow> map store_id (stores r) = [''2''] \<and> totalCost r = 7.38) \<and>
   map (\<lambda>b. (store_id (bucket_store b), bucket_items b, cost b))
     (routeStores (fst (greedy [entry ''milk'' 1, entry ''eggs'' 1]
        (availableStores sampleStores 5))) 1) = [(''2'', [''1 pcs eggs''], 3.89)]"
  by code_simp

text \<open>
  Claim C2, evaluated where it fails. An item that no store in range stocks makes
  \<^verbatim>\<open>Math.max()\<close> run on no argument, and the savings of the route are \<^verbatim>\<open>-Infinity\<close>, alone
  or beside an item that is stocked.
\<close>

theorem unfulfillable_item_savings:
  "(case optimizeRoute [entry ''caviar'' 1] sampleStores 5 3 of
      Inl e \<Rightarrow> False
    | Inr r \<Rightarrow> stores r = [] \<and> totalCost r = 0 \<and> savings r = NegInf) \<and>
   (case optimizeRoute [entry ''milk'' 1, entry ''caviar'' 1] sampleStores 5 3 of
      Inl e \<Rightarrow> False
    | Inr r \<Rightarrow> map store_id (stores r) = [''3''] \<and> totalCost r = 3.49 \<and> savings r = NegInf)"
  by code_simp

subsection \<open>A store limit that is not positive\<close>

text \<open>
  Claim C8, as amended. With \<^verbatim>\<open>maxStores = 0\<close> the route lists no store. With a negative
  \<^verbatim>\<open>maxStores = -k\<close> the route lists the stores that received an item, sorted by
  distance, without the last \<open>k\<close> of them: it lists no store exactly when at most \<open>k\<close>
  stores received an item.
\<close>

theorem nonpositive_maxStores_selection:
  assumes "maxStores \<le> 0" and "optimizeRoute gl sl radius maxStores = Inr r"
  shows "stores r =
      (if maxStores = 0 then []
       else map bucket_store
        (take (length (fst (greedy gl (availableStores sl radius))) - nat (- maxStores))
           (sortedBuckets (fst (greedy gl (availableStores sl radius)))))) \<and>
    (stores r = [] \<longleftrightarrow>
       maxStores = 0 \<or> int (length (fst (greedy gl (availableStores sl radius)))) \<le> - maxStores)"
proof -
  let ?sm = "fst (greedy gl (availableStores sl radius))"
  from assms(2) have r: "stores r = map bucket_store (routeStores ?sm maxStores)"
    by (auto simp: optimizeRoute_def Let_def split: if_splits)
  show ?thesis
  proof (cases "maxStores = 0")
    case True
    then show ?thesis by (simp add: r routeStores_def slice0_def)
  next
    case False
    then have neg: "maxStores < 0" using assms(1) by simp
    have n: "nat (int (length ?sm) + maxStores) = length ?sm - nat (- maxStores)"
      using neg by linarith
    have s: "routeStores ?sm maxStores =
        take (length ?sm - nat (- maxStores)) (sortedBuckets ?sm)"
      using neg n by (simp add: routeStores_def slice0_def length_sortedBuckets)
    have l: "length (stores r) = length ?sm - nat (- maxStores)"
      by (simp add: r s length_sortedBuckets)
    have "stores r = [] \<longleftrightarrow> length (stores r) = 0" by simp
    also have "\<dots> \<longleftrightarrow> int (length ?sm) \<le> - maxStores"
      using neg unfolding l by linarith
    finally show ?thesis using False r s by simp
  qed
qed

theorem nonpositive_maxStores_selection_witness:
  "(- 1 :: int) \<le> 0 \<and>
   (\<exists>r. optimizeRoute [entry ''milk'' 1, entry ''eggs'' 1] sampleStores 5 (- 1) = Inr r \<and>
     length (fst (greedy [entry ''milk'' 1, entry ''eggs'' 1] (availableStores sampleStores 5))) = 2 \<and>
     stores r \<noteq> [])"
proof -
  obtain r where r: "optimizeRoute [entry ''milk'' 1, entry ''eggs'' 1] sampleStores 5 (- 1) = Inr r"
    using optimizeRoute_Inr[of "[entry ''milk'' 1, entry ''eggs'' 1]" sampleStores 5 "- 1"]
      in_range_5_nonempty by simp
  have neg: "(- 1 :: int) \<le> 0" by simp
  have two: "length (fst (greedy [entry ''milk'' 1, entry ''eggs'' 1] (availableStores sampleStores 5))) = 2"
    by code_simp
  from nonpositive_maxStores_selection[OF neg r, THEN conjunct2] two
  have "stores r \<noteq> []" by simp
  with r neg two show ?thesis by blast
qed

text \<open>
  The claim as stated fails for \<^verbatim>\<open>maxStores = -1\<close>: of the two stores that received an
  item, Fresh Foods is still selected.
\<close>

theorem negative_maxStores_counterexample:
  "(case optimizeRoute [entry ''milk'' 1, entry ''eggs'' 1] sampleStores 5 (- 1) of
      Inl e \<Rightarrow> False
    | Inr r \<Rightarrow> map store_id (stores r) = [''2''] \<and> stores r \<noteq> [])"
  by code_simp

subsection \<open>Orderings\<close>










subsection \<open>Entries with the same name\<close>

text \<open>
  Claim C10. The option lists are keyed by item name, and the list under a name is the
  one built from the last entry of that name. So every entry of the name has the same
  cheapest option, hence the same store, and the line cost charged for it, to the total
  and in the store's bucket, is that store's price times the quantity of the last entry
  of the name.
\<close>

theorem same_name_entries_use_last:
  assumes "item \<in> set gl"
    and "cheapest_of (itemStoreMaps gl avail) item = Some c"
  shows "itemStoreMaps gl avail (item_name item) =
       Some (item_options avail (last (filter (\<lambda>i. item_name i = item_name item) gl))) \<and>
     (\<forall>j. item_name j = item_name item \<longrightarrow> cheapest_of (itemStoreMaps gl avail) j = Some c) \<and>
     (\<exists>e. items (opt_store c) (item_name item) = Some e \<and> available e \<and>
        opt_price c =
          price e * of_int (quantity (last (filter (\<lambda>i. item_name i = item_name item) gl)))) \<and>
     snd (assign (itemStoreMaps gl avail) item acc) = snd acc + opt_price c \<and>
     (\<exists>b. map_of (fst (assign (itemStoreMaps gl avail) item acc)) (store_id (opt_store c)) = Some b \<and>
        bucket_items b \<noteq> [] \<and> last (bucket_items b) = item_label item)"
proof -
  let ?lst = "last (filter (\<lambda>i. item_name i = item_name item) gl)"
  let ?maps = "itemStoreMaps gl avail"
  have m: "?maps (item_name item) = Some (item_options avail ?lst)"
    using last_same_name(1)[OF assms(1)] by (simp add: itemStoreMaps_lookup)
  have same: "\<forall>j. item_name j = item_name item \<longrightarrow> cheapest_of ?maps j = Some c"
    using assms(2) cheapest_of_name by metis
  have "c \<in> set (item_options avail ?lst)"
    using assms(2) m by (auto simp: cheapest_of_def split: list.splits)
  then have "c \<in> set (pushed_options avail ?lst)"
    by (simp add: item_options_def)
  from pushed_options_price[OF this] last_same_name(2)[OF assms(1)]
  have p: "\<exists>e. items (opt_store c) (item_name item) = Some e \<and> available e \<and>
        opt_price c = price e * of_int (quantity ?lst)"
    by simp
  have t: "snd (assign ?maps item acc) = snd acc + opt_price c"
    using assms(2) by (simp add: assign_def Let_def)
  have b: "\<exists>b. map_of (fst (assign ?maps item acc)) (store_id (opt_store c)) = Some b \<and>
        bucket_items b \<noteq> [] \<and> last (bucket_items b) = item_label item"
    using assms(2) by (simp add: assign_def Let_def map_of_obj_put)
  show ?thesis using m same p t b by blast
qed

text \<open>
  An instance: one milk followed by five milk. The first entry is charged 17.45, five
  times the 3.49 of Budget Grocers, and the total is 34.90.
\<close>

theorem same_name_entries_use_last_witness:
  "entry ''milk'' 1 \<in> set [entry ''milk'' 1, entry ''milk'' 5] \<and>
   quantity (last (filter (\<lambda>i. item_name i = item_name (entry ''milk'' 1))
      [entry ''milk'' 1, entry ''milk'' 5])) = 5 \<and>
   (\<exists>c. cheapest_of (itemStoreMaps [entry ''milk'' 1, entry ''milk'' 5]
            (availableStores sampleStores 5)) (entry ''milk'' 1) = Some c \<and>
        store_id (opt_store c) = ''3'' \<and> opt_price c = 17.45 \<and>
        snd (assign (itemStoreMaps [entry ''milk'' 1, entry ''milk'' 5]
               (availableStores sampleStores 5)) (entry ''milk'' 1) ([], 0)) = 17.45) \<and>
   (case optimizeRoute [entry ''milk'' 1, entry ''milk'' 5] sampleStores 5 3 of
      Inl e \<Rightarrow> False
    | Inr r \<Rightarrow> totalCost r = 34.9)"
proof -
  let ?gl = "[entry ''milk'' 1, entry ''milk'' 5]"
  let ?maps = "itemStoreMaps ?gl (availableStores sampleStores 5)"
  have mem: "entry ''milk'' 1 \<in> set ?gl" by simp
  have q: "quantity (last (filter (\<lambda>i. item_name i = item_name (entry ''milk'' 1)) ?gl)) = 5"
    by code_simp
  have ch: "map_option (\<lambda>c. (store_id (opt_store c), opt_price c))
      (cheapest_of ?maps (entry ''milk'' 1)) = Some (''3'', 17.45)"
    by code_simp
  then obtain c where c: "cheapest_of ?maps (entry ''milk'' 1) = Some c"
    and i: "store_id (opt_store c) = ''3''" and p: "opt_price c = 17.45"
    by (cases "cheapest_of ?maps (entry ''milk'' 1)") auto
  from same_name_entries_use_last[OF mem c, of "([], 0)"]
  have "snd (assign ?maps (entry ''milk'' 1) ([], 0)) = snd ([] :: (string \<times> bucket) list, 0 :: rat) + opt_price c"
    by (elim conjE)
  then have t: "snd (assign ?maps (entry ''milk'' 1) ([], 0)) = 17.45"
    unfolding p by simp
  have tot: "(case optimizeRoute ?gl sampleStores 5 3 of
      Inl e \<Rightarrow> False
    | Inr r \<Rightarrow> totalCost r = 34.9)"
    by code_simp
  show ?thesis
    by (intro conjI exI[of _ c]) (fact mem q c i p t tot)+
qed

subsection \<open>Unfulfillable items\<close>

text \<open>
  Claim C9, as amended. An unfulfillable item does not abort the optimization: with a
  non-empty list and a store in range a route is returned. Its round of the greedy pass
  changes neither the buckets nor the total, and the route's total cost and stores are
  those of the list without the unfulfillable items. The route has the four fields
  \<^verbatim>\<open>stores\<close>, \<^verbatim>\<open>totalCost\<close>, \<^verbatim>\<open>totalDistance\<close> and \<^verbatim>\<open>savings\<close>, and no list of unmatched names.
\<close>

theorem unfulfillable_items_are_left_out:
  assumes "gl \<noteq> []" and "availableStores sl radius \<noteq> []"
  shows "\<exists>r. optimizeRoute gl sl radius maxStores = Inr r \<and>
     (\<forall>item\<in>set gl. unfulfillable (availableStores sl radius) item \<longrightarrow>
        (\<forall>acc. assign (itemStoreMaps gl (availableStores sl radius)) item acc = acc)) \<and>
     totalCost r =
       snd (greedy (filter (\<lambda>i. \<not> unfulfillable (availableStores sl radius) i) gl)
              (availableStores sl radius)) \<and>
     stores r =
       map bucket_store
         (routeStores
            (fst (greedy (filter (\<lambda>i. \<not> unfulfillable (availableStores sl radius) i) gl)
                    (availableStores sl radius)))
            maxStores)"
proof -
  let ?avail = "availableStores sl radius"
  have skip: "\<forall>item\<in>set gl. unfulfillable ?avail item \<longrightarrow>
        (\<forall>acc. assign (itemStoreMaps gl ?avail) item acc = acc)"
    using cheapest_of_unfulfillable assign_skip by blast
  show ?thesis
    using optimizeRoute_Inr[OF assms, of maxStores] skip
    by (simp add: greedy_without_unfulfillable)
qed

theorem unfulfillable_items_are_left_out_witness:
  "[entry ''milk'' 1, entry ''caviar'' 1] \<noteq> [] \<and> availableStores sampleStores 5 \<noteq> [] \<and>
   unfulfillable (availableStores sampleStores 5) (entry ''caviar'' 1) \<and>
   (\<exists>r. optimizeRoute [entry ''milk'' 1, entry ''caviar'' 1] sampleStores 5 3 = Inr r \<and>
      totalCost r = 3.49 \<and> map store_id (stores r) = [''3''])"
proof -
  let ?gl = "[entry ''milk'' 1, entry ''caviar'' 1]"
  let ?avail = "availableStores sampleStores 5"
  have ne: "?gl \<noteq> []" by simp
  have u: "unfulfillable ?avail (entry ''caviar'' 1)" by code_simp
  have c: "snd (greedy (filter (\<lambda>i. \<not> unfulfillable ?avail i) ?gl) ?avail) = 3.49"
    by code_simp
  have s: "map store_id (map bucket_store
         (routeStores (fst (greedy (filter (\<lambda>i. \<not> unfulfillable ?avail i) ?gl) ?avail)) 3))
       = [''3'']"
    by code_simp
  from unfulfillable_items_are_left_out[OF ne in_range_5_nonempty, of 3]
  obtain r where r: "optimizeRoute ?gl sampleStores 5 3 = Inr r"
    and tc: "totalCost r = snd (greedy (filter (\<lambda>i. \<not> unfulfillable ?avail i) ?gl) ?avail)"
    and st: "stores r = map bucket_store
         (routeStores (fst (greedy (filter (\<lambda>i. \<not> unfulfillable ?avail i) ?gl) ?avail)) 3)"
    by (elim exE conjE)
  have tc': "totalCost r = 3.49"
    using tc c by (rule trans)
  have st': "map store_id (stores r) = [''3'']"
    unfolding st by (rule s)
  show ?thesis
    by (intro conjI exI[of _ r]) (fact ne in_range_5_nonempty u r tc' st')+
qed

text \<open>
  The claim as stated, that the result lists the unmatched names, fails: two lists whose
  unmatched names differ give the same result.
\<close>

theorem unmatched_names_not_in_result_counterexample:
  "unfulfillable (availableStores sampleStores 5) (entry ''caviar'' 1) \<and>
   unfulfillable (availableStores sampleStores 5) (entry ''truffles'' 1) \<and>
   item_name (entry ''caviar'' 1) \<noteq> item_name (entry ''truffles'' 1) \<and>
   optimizeRoute [entry ''milk'' 1, entry ''caviar'' 1] sampleStores 5 3 =
   optimizeRoute [entry ''milk'' 1, entry ''truffles'' 1] sampleStores 5 3"
proof -
  let ?A = "[entry ''milk'' 1, entry ''caviar'' 1]"
  let ?B = "[entry ''milk'' 1, entry ''truffles'' 1]"
  let ?avail = "availableStores sampleStores 5"
  have u: "unfulfillable ?avail (entry ''caviar'' 1)" "unfulfillable ?avail (entry ''truffles'' 1)"
    by code_simp+
  have n: "item_name (entry ''caviar'' 1) \<noteq> item_name (entry ''truffles'' 1)"
    by (simp add: entry_def)
  have fa: "filter (\<lambda>i. \<not> unfulfillable ?avail i) ?A = [entry ''milk'' 1]" by code_simp
  have fb: "filter (\<lambda>i. \<not> unfulfillable ?avail i) ?B = [entry ''milk'' 1]" by code_simp
  have g: "greedy ?A ?avail = greedy ?B ?avail"
    using greedy_without_unfulfillable[of ?avail ?A] greedy_without_unfulfillable[of ?avail ?B]
    unfolding fa fb by simp
  have ea: "expensiveStoreCost ?A ?avail = NegInf" by code_simp
  have eb: "expensiveStoreCost ?B ?avail = NegInf" by code_simp
  have "optimizeRoute ?A sampleStores 5 3 = optimizeRoute ?B sampleStores 5 3"
    using optimizeRoute_Inr[of ?A sampleStores 5 3] optimizeRoute_Inr[of ?B sampleStores 5 3]
      in_range_5_nonempty g ea eb by simp
  then show ?thesis using u n by blast
qed

subsection \<open>Determinism\<close>

lemma fold_proj_cong:
  assumes "map p xs = map p ys" and "\<And>x. f x = h (p x)"
  shows "fold f xs s = fold f ys s"
proof -
  have f: "f = h \<circ> p" using assms(2) by auto
  have "fold f xs s = fold h (map p xs) s" by (simp add: f fold_map)
  also have "\<dots> = fold h (map p ys) s" by (simp add: assms(1))
  also have "\<dots> = fold f ys s" by (simp add: f fold_map)
  finally show ?thesis .
qed

lemma item_options_proj:
  "item_name i = item_name j \<Longrightarrow> quantity i = quantity j \<Longrightarrow>
     item_options avail i = item_options avail j"
  by (simp add: item_options_def pushed_options_def cong: option.case_cong if_cong)

lemma itemStoreMaps_proj:
  assumes "map (\<lambda>i. (item_name i, quantity i)) gl = map (\<lambda>i. (item_name i, quantity i)) gl'"
  shows "itemStoreMaps gl avail = itemStoreMaps gl' avail"
  unfolding itemStoreMaps_def
proof (rule fold_proj_cong[OF assms])
  fix x
  show "(\<lambda>m. m(item_name x \<mapsto> item_options avail x)) =
      (\<lambda>nq m. m(fst nq \<mapsto> item_options avail (entry (fst nq) (snd nq)))) (item_name x, quantity x)"
    using item_options_proj[of x "entry (item_name x) (quantity x)" avail]
    by (simp add: entry_def)
qed

lemma expensiveStoreCost_proj:
  assumes "map (\<lambda>i. (item_name i, quantity i)) gl = map (\<lambda>i. (item_name i, quantity i)) gl'"
  shows "expensiveStoreCost gl avail = expensiveStoreCost gl' avail"
  unfolding expensiveStoreCost_def
proof (rule fold_proj_cong[OF assms])
  fix x
  show "(\<lambda>sum. num_add sum (num_mul (Math_max (available_prices avail (item_name x)))
            (Fin (of_int (quantity x))))) =
      (\<lambda>nq sum. num_add sum (num_mul (Math_max (available_prices avail (fst nq)))
            (Fin (of_int (snd nq))))) (item_name x, quantity x)"
    by simp
qed

lemma map_key_and_store_obj_put:
  "map key_and_store (obj_put k v kvs) = obj_put k (bucket_store v) (map key_and_store kvs)"
  by (induction kvs) (auto simp: key_and_store_def)

lemma map_of_key_and_store:
  "map_of (map key_and_store kvs) k = map_option bucket_store (map_of kvs k)"
  by (induction kvs) (auto simp: key_and_store_def)

lemma assign_key_and_store:
  "map key_and_store (fst (assign maps item acc)) =
     (case cheapest_of maps item of
        None \<Rightarrow> map key_and_store (fst acc)
      | Some c \<Rightarrow>
          obj_put (store_id (opt_store c))
            (case map_of (map key_and_store (fst acc)) (store_id (opt_store c)) of
               None \<Rightarrow> opt_store c
             | Some s \<Rightarrow> s)
            (map key_and_store (fst acc)))"
  by (simp add: assign_def Let_def map_key_and_store_obj_put map_of_key_and_store
      split: option.splits)

lemma assign_total:
  "snd (assign maps item acc) =
     (case cheapest_of maps item of None \<Rightarrow> snd acc | Some c \<Rightarrow> snd acc + opt_price c)"
  by (simp add: assign_def Let_def split: option.splits)

lemma fold_assign_names:
  "map item_name gl = map item_name gl' \<Longrightarrow>
   map key_and_store (fst acc) = map key_and_store (fst acc') \<Longrightarrow> snd acc = snd acc' \<Longrightarrow>
   map key_and_store (fst (fold (assign maps) gl acc)) =
     map key_and_store (fst (fold (assign maps) gl' acc')) \<and>
   snd (fold (assign maps) gl acc) = snd (fold (assign maps) gl' acc')"
proof (induction gl arbitrary: gl' acc acc')
  case Nil
  then show ?case by simp
next
  case (Cons i gl)
  from Cons.prems(1) obtain j js where gl': "gl' = j # js"
    and n: "item_name i = item_name j" and rest: "map item_name gl = map item_name js"
    by (cases gl') auto
  have c: "cheapest_of maps i = cheapest_of maps j"
    using n by (simp add: cheapest_of_def)
  have a: "map key_and_store (fst (assign maps i acc)) = map key_and_store (fst (assign maps j acc'))"
    unfolding assign_key_and_store c Cons.prems(2) by (rule refl)
  have t: "snd (assign maps i acc) = snd (assign maps j acc')"
    unfolding assign_total c Cons.prems(3) by (rule refl)
  show ?case
    using Cons.IH[OF rest a t] by (simp add: gl')
qed

lemma map_insort_key:
  "map f (insort_key (\<lambda>x. g (f x)) x xs) = insort_key g (f x) (map f xs)"
  by (induction xs) auto

lemma map_sort_key: "map f (sort_key (\<lambda>x. g (f x)) xs) = sort_key g (map f xs)"
  by (induction xs) (simp_all add: map_insort_key)

lemma map_slice0: "map f (slice0 xs e) = slice0 (map f xs) e"
  by (simp add: slice0_def take_map)

lemma Object_values_key_and_store:
  "map bucket_store (Object_values sm) = Object_values (map key_and_store sm)"
proof -
  have k: "(\<lambda>x. the (array_index (fst (key_and_store x)))) = (\<lambda>kv. the (array_index (fst kv)))"
    by (auto simp: key_and_store_def)
  have s: "bucket_store \<circ> snd = snd \<circ> key_and_store"
    by (auto simp: key_and_store_def)
  have f: "filter (\<lambda>kv. P (fst kv)) (map key_and_store sm) =
      map key_and_store (filter (\<lambda>kv. P (fst kv)) sm)" for P
    by (simp add: filter_map o_def key_and_store_def)
  have "sort_key (\<lambda>kv. the (array_index (fst kv))) (map key_and_store xs) =
      map key_and_store (sort_key (\<lambda>kv. the (array_index (fst kv))) xs)" for xs
    using map_sort_key[of key_and_store "\<lambda>kv. the (array_index (fst kv))" xs]
    unfolding k by simp
  then show ?thesis
    unfolding Object_values_def
    using f[of "\<lambda>k. array_index k \<noteq> None"] f[of "\<lambda>k. array_index k = None"] s
    by (simp del: not_None_eq)
qed

lemma stores_of_routeStores:
  "map bucket_store (routeStores sm maxStores) =
     slice0 (sort_key distance (Object_values (map key_and_store sm))) maxStores"
proof -
  have "map bucket_store (sortedBuckets sm) = sort_key distance (map bucket_store (Object_values sm))"
    unfolding sortedBuckets_def by (rule map_sort_key)
  then show ?thesis
    by (simp add: routeStores_def map_slice0 Object_values_key_and_store)
qed

lemma totalDistance_of_stores:
  "fold (\<lambda>s sum. sum + distance (bucket_store s)) rs (0::rat) =
     fold (\<lambda>s sum. sum + distance s) (map bucket_store rs) 0"
  by (simp add: fold_map o_def)

lemma greedy_proj:
  assumes "map (\<lambda>i. (item_name i, quantity i)) gl = map (\<lambda>i. (item_name i, quantity i)) gl'"
  shows "map key_and_store (fst (greedy gl avail)) = map key_and_store (fst (greedy gl' avail))"
    and "snd (greedy gl avail) = snd (greedy gl' avail)"
proof -
  have "map fst (map (\<lambda>i. (item_name i, quantity i)) gl) =
      map fst (map (\<lambda>i. (item_name i, quantity i)) gl')"
    using assms by simp
  then have n: "map item_name gl = map item_name gl'"
    by (simp add: o_def)
  have m: "itemStoreMaps gl avail = itemStoreMaps gl' avail"
    using assms by (rule itemStoreMaps_proj)
  from fold_assign_names[OF n, of "([], 0)" "([], 0)" "itemStoreMaps gl' avail"]
  show "map key_and_store (fst (greedy gl avail)) = map key_and_store (fst (greedy gl' avail))"
    and "snd (greedy gl avail) = snd (greedy gl' avail)"
    by (simp_all add: greedy_def m)
qed

text \<open>
  Claim C6, as amended. The outcome of \<^verbatim>\<open>optimizeRoute\<close> is determined by the names and
  quantities of the grocery list in order, the stores, the radius and the store limit:
  two lists that agree on names and quantities give the same outcome, whatever the ids
  (time stamps) and units of their entries. The mock fallback of
  \<^verbatim>\<open>optimizeShoppingRoute\<close> returns the same plan for the same item and store names, but
  its cost is computed from \<^verbatim>\<open>Math.random()\<close>, so two calls with the same input can return
  different costs.
\<close>

theorem same_names_and_quantities_same_result:
  assumes "map (\<lambda>i. (item_name i, quantity i)) gl = map (\<lambda>i. (item_name i, quantity i)) gl'"
  shows "optimizeRoute gl sl radius maxStores = optimizeRoute gl' sl radius maxStores \<and>
    Plan (optimizeShoppingRoute ns ss None x) = Plan (optimizeShoppingRoute ns ss None y)"
proof -
  let ?avail = "availableStores sl radius"
  have e: "gl = [] \<longleftrightarrow> gl' = []"
    using assms by (metis map_is_Nil_conv)
  have s: "map bucket_store (routeStores (fst (greedy gl ?avail)) maxStores) =
      map bucket_store (routeStores (fst (greedy gl' ?avail)) maxStores)"
    unfolding stores_of_routeStores greedy_proj(1)[OF assms] by (rule refl)
  have d: "fold (\<lambda>s sum. sum + distance (bucket_store s))
        (routeStores (fst (greedy gl ?avail)) maxStores) (0::rat) =
      fold (\<lambda>s sum. sum + distance (bucket_store s))
        (routeStores (fst (greedy gl' ?avail)) maxStores) 0"
    unfolding totalDistance_of_stores s by (rule refl)
  have "optimizeRoute gl sl radius maxStores = optimizeRoute gl' sl radius maxStores"
    using e s d greedy_proj(2)[OF assms, of ?avail] expensiveStoreCost_proj[OF assms, of ?avail]
    by (simp add: optimizeRoute_def Let_def)
  moreover have "Plan (optimizeShoppingRoute ns ss None x) = Plan (optimizeShoppingRoute ns ss None y)"
    by (simp add: optimizeShoppingRoute_def Let_def)
  ultimately show ?thesis by blast
qed

theorem same_names_and_quantities_same_result_witness:
  "map (\<lambda>i. (item_name i, quantity i))
      [(entry ''milk'' 2)\<lparr>item_id := ''1700000000000''\<rparr>, entry ''eggs'' 1] =
   map (\<lambda>i. (item_name i, quantity i))
      [(entry ''milk'' 2)\<lparr>item_id := ''1700000000999''\<rparr>, (entry ''eggs'' 1)\<lparr>item_unit := ''dozen''\<rparr>] \<and>
   optimizeRoute [(entry ''milk'' 2)\<lparr>item_id := ''1700000000000''\<rparr>, entry ''eggs'' 1] sampleStores 5 3 =
   optimizeRoute [(entry ''milk'' 2)\<lparr>item_id := ''1700000000999''\<rparr>, (entry ''eggs'' 1)\<lparr>item_unit := ''dozen''\<rparr>]
      sampleStores 5 3"
proof -
  have h: "map (\<lambda>i. (item_name i, quantity i))
      [(entry ''milk'' 2)\<lparr>item_id := ''1700000000000''\<rparr>, entry ''eggs'' 1] =
   map (\<lambda>i. (item_name i, quantity i))
      [(entry ''milk'' 2)\<lparr>item_id := ''1700000000999''\<rparr>, (entry ''eggs'' 1)\<lparr>item_unit := ''dozen''\<rparr>]"
    by (simp add: entry_def)
  from same_names_and_quantities_same_result[OF h, of sampleStores 5 3, THEN conjunct1] h
  show ?thesis by (rule conjI[rotated])
qed

text \<open>
  The claim as stated fails for the mock fallback: the same item and store names with the
  random draws 0.25 and 0.5 give the costs 37.5 and 50, and so two different results.
  Both costs are exact in double arithmetic as well.
\<close>

theorem mock_cost_is_random_counterexample:
  "Cost (optimizeShoppingRoute [''milk'', ''eggs''] [''Walmart'', ''Target''] None (1 / 4)) = 37.5 \<and>
   Cost (optimizeShoppingRoute [''milk'', ''eggs''] [''Walmart'', ''Target''] None (1 / 2)) = 50 \<and>
   optimizeShoppingRoute [''milk'', ''eggs''] [''Walmart'', ''Target''] None (1 / 4) \<noteq>
   optimizeShoppingRoute [''milk'', ''eggs''] [''Walmart'', ''Target''] None (1 / 2)"
proof -
  have a: "Cost (optimizeShoppingRoute [''milk'', ''eggs''] [''Walmart'', ''Target''] None (1 / 4)) = 37.5"
    by (simp add: optimizeShoppingRoute_def Let_def)
  have b: "Cost (optimizeShoppingRoute [''milk'', ''eggs''] [''Walmart'', ''Target''] None (1 / 2)) = 50"
    by (simp add: optimizeShoppingRoute_def Let_def)
  have "optimizeShoppingRoute [''milk'', ''eggs''] [''Walmart'', ''Target''] None (1 / 4) \<noteq>
   optimizeShoppingRoute [''milk'', ''eggs''] [''Walmart'', ''Target''] None (1 / 2)"
  proof
    assume "optimizeShoppingRoute [''milk'', ''eggs''] [''Walmart'', ''Target''] None (1 / 4) =
      optimizeShoppingRoute [''milk'', ''eggs''] [''Walmart'', ''Target''] None (1 / 2)"
    then have "Cost (optimizeShoppingRoute [''milk'', ''eggs''] [''Walmart'', ''Target''] None (1 / 4)) =
      Cost (optimizeShoppingRoute [''milk'', ''eggs''] [''Walmart'', ''Target''] None (1 / 2))"
      by (rule arg_cong)
    then show False unfolding a b by simp
  qed
  with a b show ?thesis by (intro conjI)
qed

end
